theory Spec2Isabelle
  imports Complex_Main "HOL-Library.Log_Nat"
begin

section \<open>JavaScript numbers\<close>

text \<open>
  A JavaScript \<open>number\<close> is an IEEE 754 binary64 value. The finite ones are modelled
  as the reals they denote, and every arithmetic operation that rounds (\<open>*\<close>, \<open>/\<close>,
  a decimal literal) is followed by \<open>fl\<close>, rounding to the nearest binary64 value,
  ties to the even significand, with gradual underflow below \<open>2 powi (- 1022)\<close>.
  \<open>Math.min\<close>, \<open>Math.max\<close>, unary minus and the comparisons are exact and are HOL's
  \<open>min\<close>, \<open>max\<close>, \<open>-\<close>, \<open>\<le>\<close> and \<open>=\<close>. \<open>NaN\<close> and the infinities are not values
  of the model (the scale factor of the specification is a positive finite number), a
  product beyond the binary64 range keeps its finite rounded value, and the two zeros
  are one (\<open>===\<close> does not tell them apart).
\<close>

type_synonym number = real

definition ilog2 :: "real \<Rightarrow> int" where
  \<comment> \<open>the binary exponent of a positive number: \<open>2 powi e \<le> x < 2 powi (e + 1)\<close>\<close>
  "ilog2 x = (if 1 \<le> x then bitlen \<lfloor>x\<rfloor> - 1 else - bitlen (\<lceil>1 / x\<rceil> - 1))"

definition roundTiesToEven :: "real \<Rightarrow> int" where
  "roundTiesToEven y =
     (let f = \<lfloor>y\<rfloor>; d = y - of_int f
      in if d < 1 / 2 then f else if 1 / 2 < d then f + 1 else if even f then f else f + 1)"

definition bexp :: "real \<Rightarrow> int" where
  \<comment> \<open>the exponent of the binade of \<open>x\<close>; the subnormal numbers share the least one\<close>
  "bexp x = max (ilog2 \<bar>x\<bar>) (- 1022)"

definition quantum :: "real \<Rightarrow> real" where
  \<comment> \<open>the spacing of the binary64 values around \<open>x\<close>: 53 significant bits\<close>
  "quantum x = 2 powi (bexp x - 52)"

definition fl :: "real \<Rightarrow> number" where
  "fl x = (if x = 0 then 0 else of_int (roundTiesToEven (x / quantum x)) * quantum x)"

definition js_times :: "number \<Rightarrow> number \<Rightarrow> number" where
  \<comment> \<open>\<open>a * b\<close>\<close>
  "js_times a b = fl (a * b)"

definition js_divide :: "number \<Rightarrow> number \<Rightarrow> number option" where
  \<comment> \<open>\<open>a / b\<close>; \<open>None\<close> when the divisor is zero: the quotient is then an infinity or
      \<open>NaN\<close>, not a value of the model (and not HOL's \<open>a / 0 = 0\<close>)\<close>
  "js_divide a b = (if b = 0 then None else Some (fl (a / b)))"

definition Math_round :: "number \<Rightarrow> number" where
  \<comment> \<open>\<open>Math.round\<close>: the nearest integer, a tie going towards plus infinity\<close>
  "Math_round x = of_int \<lfloor>x + 1 / 2\<rfloor>"


section \<open>The font scale hook (src/hooks/useFontScale.ts)\<close>

text \<open>
  The platform, as one read sees it. A call that can throw, and a promise that can
  reject, has a result of type \<open>error + number\<close>. \<open>FontScaleModule\<close> is
  \<open>NativeModules.FontScaleModule\<close>, which may be undefined, and each of its methods may
  be missing; \<open>PixelRatio_getFontScale\<close> is React Native's cached value. What the hook
  writes to the console has no part in its results and is left out.
\<close>

datatype error = Error string

record FontScaleModuleInterface =
  module_getFontScale :: "(error + number) option"
  module_getFontScaleSync :: "(error + number) option"

record platform =
  Platform_OS :: string
  FontScaleModule :: "FontScaleModuleInterface option"
  PixelRatio_getFontScale :: "error + number"

record UseFontScaleOptions =
  minScale :: "number option"
  maxScale :: "number option"
  listenToDimensions :: "bool option"
  listenToAppState :: "bool option"

text \<open>The defaults of the destructuring \<open>{minScale = 0.8, maxScale = 2.0, ...} = options\<close>.\<close>

definition minScaleOf :: "UseFontScaleOptions \<Rightarrow> number" where
  "minScaleOf options = (case minScale options of None \<Rightarrow> fl (8 / 10) | Some v \<Rightarrow> v)"

definition maxScaleOf :: "UseFontScaleOptions \<Rightarrow> number" where
  "maxScaleOf options = (case maxScale options of None \<Rightarrow> 2 | Some v \<Rightarrow> v)"

definition listenToDimensionsOf :: "UseFontScaleOptions \<Rightarrow> bool" where
  "listenToDimensionsOf options = (case listenToDimensions options of None \<Rightarrow> True | Some b \<Rightarrow> b)"

definition listenToAppStateOf :: "UseFontScaleOptions \<Rightarrow> bool" where
  "listenToAppStateOf options = (case listenToAppState options of None \<Rightarrow> True | Some b \<Rightarrow> b)"

text \<open>
  \<open>fontScaleCorrection\<close> is the result of a division, so it is a \<open>number option\<close>
  (see \<open>js_divide\<close>). \<open>updateCount\<close> is absent from the result of the imperative
  \<open>getFontScale\<close>.
\<close>

record FontScaleResult =
  fontScale :: number
  fontScaleCorrection :: "number option"
  cachedFontScale :: number
  updateCount :: "nat option"

definition getNativeFontScale :: "platform \<Rightarrow> error + number" where
  "getNativeFontScale p =
     (if Platform_OS p = ''android'' then
        (case FontScaleModule p of
           None \<Rightarrow> PixelRatio_getFontScale p
         | Some m \<Rightarrow>
             (case module_getFontScale m of
                None \<Rightarrow> PixelRatio_getFontScale p
              | Some (Inr v) \<Rightarrow> Inr v
              | Some (Inl e) \<Rightarrow> PixelRatio_getFontScale p))
      else PixelRatio_getFontScale p)"

definition getFontScaleSync :: "platform \<Rightarrow> error + number" where
  "getFontScaleSync p =
     (if Platform_OS p = ''android'' then
        (case FontScaleModule p of
           None \<Rightarrow> PixelRatio_getFontScale p
         | Some m \<Rightarrow>
             (case module_getFontScaleSync m of
                None \<Rightarrow> PixelRatio_getFontScale p
              | Some (Inr v) \<Rightarrow> Inr v
              | Some (Inl e) \<Rightarrow> PixelRatio_getFontScale p))
      else PixelRatio_getFontScale p)"

definition getCachedFontScale :: "platform \<Rightarrow> error + number" where
  "getCachedFontScale p = PixelRatio_getFontScale p"

definition clamp :: "number \<Rightarrow> number \<Rightarrow> number \<Rightarrow> number" where
  "clamp v mn mx = min (max v mn) mx"

text \<open>
  The initial state of \<open>useFontScale\<close>: the initialiser of \<open>useState\<close>. An exception of
  a read leaves the initialiser (the sum's \<open>Inl\<close>).
\<close>

definition initialState :: "UseFontScaleOptions \<Rightarrow> platform \<Rightarrow> nat \<Rightarrow> error + FontScaleResult" where
  "initialState options p globalUpdateCount =
     (case getFontScaleSync p of
        Inl e \<Rightarrow> Inl e
      | Inr actualScale \<Rightarrow>
          (case getCachedFontScale p of
             Inl e \<Rightarrow> Inl e
           | Inr cachedScale \<Rightarrow>
               (let clampedScale = clamp actualScale (minScaleOf options) (maxScaleOf options);
                    correction = (if cachedScale \<noteq> 0 then js_divide clampedScale cachedScale else Some 1)
                in Inr \<lparr>fontScale = clampedScale, fontScaleCorrection = correction,
                         cachedFontScale = cachedScale, updateCount = Some globalUpdateCount\<rparr>)))"

text \<open>
  \<open>updateFontScale\<close> returns the incremented module-level counter and the state it sets.
  When a read throws, the promise rejects before the counter is incremented and before
  \<open>setState\<close>.
\<close>

definition updateFontScale ::
  "UseFontScaleOptions \<Rightarrow> platform \<Rightarrow> nat \<Rightarrow> error + (nat \<times> FontScaleResult)" where
  "updateFontScale options p globalUpdateCount =
     (case getNativeFontScale p of
        Inl e \<Rightarrow> Inl e
      | Inr actualScale \<Rightarrow>
          (case getCachedFontScale p of
             Inl e \<Rightarrow> Inl e
           | Inr cachedScale \<Rightarrow>
               (let clampedScale = clamp actualScale (minScaleOf options) (maxScaleOf options);
                    correction = (if cachedScale \<noteq> 0 then js_divide clampedScale cachedScale else Some 1);
                    globalUpdateCount' = globalUpdateCount + 1
                in Inr (globalUpdateCount',
                        \<lparr>fontScale = clampedScale, fontScaleCorrection = correction,
                         cachedFontScale = cachedScale, updateCount = Some globalUpdateCount'\<rparr>))))"

definition getFontScale :: "UseFontScaleOptions \<Rightarrow> platform \<Rightarrow> error + FontScaleResult" where
  "getFontScale options p =
     (case getNativeFontScale p of
        Inl e \<Rightarrow> Inl e
      | Inr actualScale \<Rightarrow>
          (case getCachedFontScale p of
             Inl e \<Rightarrow> Inl e
           | Inr cachedScale \<Rightarrow>
               (let clampedScale = clamp actualScale (minScaleOf options) (maxScaleOf options);
                    correction = (if cachedScale \<noteq> 0 then js_divide clampedScale cachedScale else Some 1)
                in Inr \<lparr>fontScale = clampedScale, fontScaleCorrection = correction,
                         cachedFontScale = cachedScale, updateCount = None\<rparr>)))"

text \<open>
  The hook as a state machine: the module-level counter and the state the hook returns.
  An event comes with the platform as the read it triggers sees it. The update on mount
  and the one on a change of the app state to \<open>active\<close> are in the effect that
  \<open>listenToAppState\<close> switches off; the one on a change of the dimensions is in the effect
  that \<open>listenToDimensions\<close> switches off. Updates are taken one after the other (the
  interleaving of two pending reads is not modelled), and a rejected update leaves the
  state as it is.
\<close>

record hook =
  globalUpdateCount :: nat
  state :: FontScaleResult

datatype event = Mounted | AppStateChange string | DimensionsChange

fun triggers :: "UseFontScaleOptions \<Rightarrow> event \<Rightarrow> bool" where
  "triggers options Mounted = listenToAppStateOf options"
| "triggers options (AppStateChange nextAppState) =
     (listenToAppStateOf options \<and> nextAppState = ''active'')"
| "triggers options DimensionsChange = listenToDimensionsOf options"

definition handleEvent :: "UseFontScaleOptions \<Rightarrow> hook \<Rightarrow> event \<times> platform \<Rightarrow> hook" where
  "handleEvent options h ep =
     (if triggers options (fst ep) then
        (case updateFontScale options (snd ep) (globalUpdateCount h) of
           Inl e \<Rightarrow> h
         | Inr (g, r) \<Rightarrow> \<lparr>globalUpdateCount = g, state = r\<rparr>)
      else h)"

definition useFontScale ::
  "UseFontScaleOptions \<Rightarrow> platform \<Rightarrow> nat \<Rightarrow> (event \<times> platform) list \<Rightarrow> error + hook" where
  "useFontScale options p g events =
     (case initialState options p g of
        Inl e \<Rightarrow> Inl e
      | Inr r \<Rightarrow> Inr (foldl (handleEvent options) \<lparr>globalUpdateCount = g, state = r\<rparr> events))"

section \<open>The native module (android/.../FontScaleModule.kt)\<close>

text \<open>
  \<open>currentActivity?.resources?.configuration?.fontScale\<close> is \<open>None\<close> when the safe-call
  chain yields null, and the Elvis operator then reads the application context. An
  exception of either read is caught and the promise resolves with \<open>1.0\<close>; the promise
  never rejects.
\<close>

definition FontScaleModule_getFontScale :: "(error + number) option \<Rightarrow> error + number \<Rightarrow> number" where
  "FontScaleModule_getFontScale activityFontScale applicationFontScale =
     (case (case activityFontScale of Some r \<Rightarrow> r | None \<Rightarrow> applicationFontScale) of
        Inr v \<Rightarrow> v
      | Inl e \<Rightarrow> 1)"

definition FontScaleModule_getFontScaleSync :: "(error + number) option \<Rightarrow> error + number \<Rightarrow> number" where
  "FontScaleModule_getFontScaleSync activityFontScale applicationFontScale =
     (case (case activityFontScale of Some r \<Rightarrow> r | None \<Rightarrow> applicationFontScale) of
        Inr v \<Rightarrow> v
      | Inl e \<Rightarrow> 1)"

text \<open>The module as JavaScript sees it when the package is registered.\<close>

definition registeredModule :: "(error + number) option \<Rightarrow> error + number \<Rightarrow> FontScaleModuleInterface" where
  "registeredModule activityFontScale applicationFontScale =
     \<lparr>module_getFontScale =
        Some (Inr (FontScaleModule_getFontScale activityFontScale applicationFontScale)),
      module_getFontScaleSync =
        Some (Inr (FontScaleModule_getFontScaleSync activityFontScale applicationFontScale))\<rparr>"


section \<open>The theme (src/theme/theme.ts)\<close>

text \<open>
  An object literal whose properties the code reads by name is a function on the
  datatype of its keys: \<open>XS\<close> is the key \<open>xs\<close>, \<open>XL2\<close> the key \<open>'2xl'\<close>, and so on.
  \<open>baseSpacing\<close> is read through \<open>Object.entries\<close>, so it is the list of its entries in
  the order of the literal, and the table that \<open>createScaledSpacing\<close> fills key by key
  is a map from strings.
\<close>

datatype fontSizeKey = XS | SM | MD | LG | XL | XL2 | XL3 | XL4 | XL5 | XL6

fun baseFontSizes :: "fontSizeKey \<Rightarrow> number" where
  "baseFontSizes XS = 10"
| "baseFontSizes SM = 12"
| "baseFontSizes MD = 14"
| "baseFontSizes LG = 16"
| "baseFontSizes XL = 18"
| "baseFontSizes XL2 = 20"
| "baseFontSizes XL3 = 24"
| "baseFontSizes XL4 = 30"
| "baseFontSizes XL5 = 36"
| "baseFontSizes XL6 = 48"

definition baseSpacing :: "(string \<times> number) list" where
  "baseSpacing =
     [(''none'', 0), (''xs'', 4), (''sm'', 8), (''md'', 12), (''lg'', 16), (''xl'', 20),
      (''2xl'', 24), (''3xl'', 32), (''4xl'', 40), (''5xl'', 48), (''6xl'', 64)]"

datatype lineHeightKey = Tight | Normal | Relaxed

fun lineHeightMultipliers :: "lineHeightKey \<Rightarrow> number" where
  "lineHeightMultipliers Tight = fl (12 / 10)"
| "lineHeightMultipliers Normal = fl (15 / 10)"
| "lineHeightMultipliers Relaxed = fl (175 / 100)"

datatype category = Heading | Body | Button | Caption | Spacing

fun scaleCaps :: "category \<Rightarrow> number" where
  "scaleCaps Heading = fl (14 / 10)"
| "scaleCaps Body = 2"
| "scaleCaps Button = fl (13 / 10)"
| "scaleCaps Caption = fl (18 / 10)"
| "scaleCaps Spacing = fl (15 / 10)"

definition applyScale :: "number \<Rightarrow> number \<Rightarrow> number \<Rightarrow> number" where
  "applyScale baseValue scale cap =
     (let effectiveScale = min scale cap in Math_round (js_times baseValue effectiveScale))"

fun createScaledFontSizes :: "number \<Rightarrow> fontSizeKey \<Rightarrow> number" where
  "createScaledFontSizes scale XS = applyScale (baseFontSizes XS) scale (scaleCaps Caption)"
| "createScaledFontSizes scale SM = applyScale (baseFontSizes SM) scale (scaleCaps Caption)"
| "createScaledFontSizes scale MD = applyScale (baseFontSizes MD) scale (scaleCaps Body)"
| "createScaledFontSizes scale LG = applyScale (baseFontSizes LG) scale (scaleCaps Body)"
| "createScaledFontSizes scale XL = applyScale (baseFontSizes XL) scale (scaleCaps Heading)"
| "createScaledFontSizes scale XL2 = applyScale (baseFontSizes XL2) scale (scaleCaps Heading)"
| "createScaledFontSizes scale XL3 = applyScale (baseFontSizes XL3) scale (scaleCaps Heading)"
| "createScaledFontSizes scale XL4 = applyScale (baseFontSizes XL4) scale (scaleCaps Heading)"
| "createScaledFontSizes scale XL5 = applyScale (baseFontSizes XL5) scale (scaleCaps Heading)"
| "createScaledFontSizes scale XL6 = applyScale (baseFontSizes XL6) scale (scaleCaps Heading)"

text \<open>The category whose cap \<open>createScaledFontSizes\<close> applies to each size.\<close>

fun fontSizeCategory :: "fontSizeKey \<Rightarrow> category" where
  "fontSizeCategory XS = Caption"
| "fontSizeCategory SM = Caption"
| "fontSizeCategory MD = Body"
| "fontSizeCategory LG = Body"
| "fontSizeCategory k = Heading"

text \<open>
  The loop of \<open>createScaledSpacing\<close> over the entries, then the six negated entries.
  \<open>negated\<close> is \<open>-scaledSpacing.k\<close>; it leaves the key out where \<open>k\<close> is missing (JavaScript
  would store \<open>NaN\<close>), which does not happen for the keys of \<open>baseSpacing\<close>.
\<close>

definition scaleEntry :: "number \<Rightarrow> (string \<rightharpoonup> number) \<Rightarrow> string \<times> number \<Rightarrow> (string \<rightharpoonup> number)" where
  "scaleEntry scale scaledSpacing kv =
     (if snd kv = 0 then scaledSpacing(fst kv \<mapsto> 0)
      else scaledSpacing(fst kv \<mapsto> applyScale (snd kv) scale (scaleCaps Spacing)))"

definition negated :: "(string \<rightharpoonup> number) \<Rightarrow> string \<Rightarrow> number option" where
  "negated scaledSpacing k = map_option uminus (scaledSpacing k)"

definition createScaledSpacing :: "number \<Rightarrow> (string \<rightharpoonup> number)" where
  "createScaledSpacing scale =
     (let s0 = foldl (scaleEntry scale) Map.empty baseSpacing;
          s1 = s0(''-xs'' := negated s0 ''xs'');
          s2 = s1(''-sm'' := negated s1 ''sm'');
          s3 = s2(''-md'' := negated s2 ''md'');
          s4 = s3(''-lg'' := negated s3 ''lg'');
          s5 = s4(''-xl'' := negated s4 ''xl'');
          s6 = s5(''-2xl'' := negated s5 ''2xl'')
      in s6)"

text \<open>
  Of a text variant the font size and the line height are kept (the colour, the weight
  and the decoration are constant strings), and of the theme the spacing and the text
  variants (the other tables are constants that no scale factor reaches).
\<close>

record textVariant =
  fontSize :: number
  lineHeight :: number

record Theme =
  spacing :: "string \<rightharpoonup> number"
  textVariants :: "(string \<times> textVariant) list"

definition createScaledTheme :: "number \<Rightarrow> nat \<Rightarrow> Theme" where
  "createScaledTheme scale updateKey =
     (let fontSizes = createScaledFontSizes scale;
          spacing' = createScaledSpacing scale
      in \<lparr>spacing = spacing',
          textVariants =
            [(''defaults'', \<lparr>fontSize = fontSizes MD,
                lineHeight = Math_round (js_times (fontSizes MD) (lineHeightMultipliers Normal))\<rparr>),
             (''h1'', \<lparr>fontSize = fontSizes XL6,
                lineHeight = Math_round (js_times (fontSizes XL6) (lineHeightMultipliers Tight))\<rparr>),
             (''h2'', \<lparr>fontSize = fontSizes XL5,
                lineHeight = Math_round (js_times (fontSizes XL5) (lineHeightMultipliers Tight))\<rparr>),
             (''h3'', \<lparr>fontSize = fontSizes XL4,
                lineHeight = Math_round (js_times (fontSizes XL4) (lineHeightMultipliers Tight))\<rparr>),
             (''h4'', \<lparr>fontSize = fontSizes XL3,
                lineHeight = Math_round (js_times (fontSizes XL3) (lineHeightMultipliers Tight))\<rparr>),
             (''h5'', \<lparr>fontSize = fontSizes XL2,
                lineHeight = Math_round (js_times (fontSizes XL2) (lineHeightMultipliers Tight))\<rparr>),
             (''h6'', \<lparr>fontSize = fontSizes XL,
                lineHeight = Math_round (js_times (fontSizes XL) (lineHeightMultipliers Tight))\<rparr>),
             (''body'', \<lparr>fontSize = fontSizes MD,
                lineHeight = Math_round (js_times (fontSizes MD) (lineHeightMultipliers Normal))\<rparr>),
             (''bodyLarge'', \<lparr>fontSize = fontSizes LG,
                lineHeight = Math_round (js_times (fontSizes LG) (lineHeightMultipliers Normal))\<rparr>),
             (''bodySmall'', \<lparr>fontSize = fontSizes SM,
                lineHeight = Math_round (js_times (fontSizes SM) (lineHeightMultipliers Normal))\<rparr>),
             (''button'', \<lparr>fontSize = applyScale (baseFontSizes MD) scale (scaleCaps Button),
                lineHeight = Math_round (js_times (applyScale (baseFontSizes MD) scale (scaleCaps Button))
                                           (lineHeightMultipliers Normal))\<rparr>),
             (''buttonLarge'', \<lparr>fontSize = applyScale (baseFontSizes LG) scale (scaleCaps Button),
                lineHeight = Math_round (js_times (applyScale (baseFontSizes LG) scale (scaleCaps Button))
                                           (lineHeightMultipliers Normal))\<rparr>),
             (''buttonSmall'', \<lparr>fontSize = applyScale (baseFontSizes SM) scale (scaleCaps Button),
                lineHeight = Math_round (js_times (applyScale (baseFontSizes SM) scale (scaleCaps Button))
                                           (lineHeightMultipliers Normal))\<rparr>),
             (''caption'', \<lparr>fontSize = fontSizes XS,
                lineHeight = Math_round (js_times (fontSizes XS) (lineHeightMultipliers Normal))\<rparr>),
             (''captionMedium'', \<lparr>fontSize = fontSizes SM,
                lineHeight = Math_round (js_times (fontSizes SM) (lineHeightMultipliers Normal))\<rparr>),
             (''label'', \<lparr>fontSize = fontSizes SM,
                lineHeight = Math_round (js_times (fontSizes SM) (lineHeightMultipliers Normal))\<rparr>),
             (''labelLarge'', \<lparr>fontSize = fontSizes MD,
                lineHeight = Math_round (js_times (fontSizes MD) (lineHeightMultipliers Normal))\<rparr>),
             (''link'', \<lparr>fontSize = fontSizes MD,
                lineHeight = Math_round (js_times (fontSizes MD) (lineHeightMultipliers Normal))\<rparr>)]\<rparr>)"

text \<open>The line-height multiplier that the literal of each text variant names.\<close>

definition variantMultiplier :: "string \<Rightarrow> lineHeightKey" where
  "variantMultiplier name =
     (if name \<in> set [''h1'', ''h2'', ''h3'', ''h4'', ''h5'', ''h6''] then Tight else Normal)"

section \<open>The provider (src/theme/ThemeProvider.tsx)\<close>

text \<open>
  A React context is its default value, and \<open>useContext\<close> reads the value of the
  nearest enclosing provider, or the default where there is none. The enclosing
  providers of the calling component are the list of their values, the nearest first.
  A value that may be \<open>undefined\<close> is an option. The console is the list of the
  warnings written.
\<close>

definition createContext :: "'a \<Rightarrow> 'a" where
  "createContext defaultValue = defaultValue"

definition useContext :: "'a \<Rightarrow> 'a list \<Rightarrow> 'a" where
  "useContext ctx providers = (case providers of [] \<Rightarrow> ctx | v # _ \<Rightarrow> v)"

definition FontScaleContext :: "number option" where
  "FontScaleContext = createContext (Some 1)"

definition ScaledThemeProvider :: "FontScaleResult \<Rightarrow> number option \<times> Theme" where
  \<comment> \<open>the value given to \<open>FontScaleContext.Provider\<close> and the theme given to restyle\<close>
  "ScaledThemeProvider r =
     (Some (fontScale r),
      createScaledTheme (fontScale r) (case updateCount r of Some n \<Rightarrow> n | None \<Rightarrow> 0))"

definition useFontScaleValue :: "number option list \<Rightarrow> number \<times> string list" where
  "useFontScaleValue providers =
     (case useContext FontScaleContext providers of
        None \<Rightarrow>
          (1, [''useFontScaleValue must be used within a ScaledThemeProvider. '' @
               ''Falling back to default scale of 1.''])
      | Some v \<Rightarrow> (v, []))"

section \<open>Predicates and example inputs\<close>

text \<open>The published scale factor lies between the configured bounds.\<close>

definition inRange :: "UseFontScaleOptions \<Rightarrow> FontScaleResult \<Rightarrow> bool" where
  "inRange options r = (minScaleOf options \<le> fontScale r \<and> fontScale r \<le> maxScaleOf options)"

text \<open>
  The live read of \<open>getNativeFontScale\<close> gives no value: the platform is not Android, the
  module or its method is missing, or the promise rejects.
\<close>

definition liveReadFails :: "platform \<Rightarrow> bool" where
  "liveReadFails p =
     (Platform_OS p \<noteq> ''android''
      \<or> (case FontScaleModule p of
            None \<Rightarrow> True
          | Some m \<Rightarrow>
              (case module_getFontScale m of
                 None \<Rightarrow> True
               | Some (Inl e) \<Rightarrow> True
               | Some (Inr v) \<Rightarrow> False)))"

text \<open>
  Inputs for the examples: the options object \<open>{}\<close>, and an Android device with the
  native module registered, whose configuration reads \<open>live\<close> and whose
  \<open>PixelRatio.getFontScale()\<close> returns \<open>cached\<close>.
\<close>

definition defaultOptions :: UseFontScaleOptions where
  "defaultOptions =
     \<lparr>minScale = None, maxScale = None, listenToDimensions = None, listenToAppState = None\<rparr>"

definition examplePlatform :: "number \<Rightarrow> number \<Rightarrow> platform" where
  "examplePlatform live cached =
     \<lparr>Platform_OS = ''android'',
      FontScaleModule = Some (registeredModule (Some (Inr live)) (Inr live)),
      PixelRatio_getFontScale = Inr cached\<rparr>"

text \<open>
  What the three places that build a \<open>FontScaleResult\<close> compute for the correction: the
  binary64 quotient, or \<open>1\<close> when the cached scale is zero.
\<close>

definition correctionOf :: "FontScaleResult \<Rightarrow> bool" where
  "correctionOf r =
     (fontScaleCorrection r
        = (if cachedFontScale r \<noteq> 0 then Some (fl (fontScale r / cachedFontScale r)) else Some 1))"

section \<open>Rounding to binary64\<close>

text \<open>
  The exponent is the right one, rounding is odd and monotone, it is exact on the
  integers below \<open>2 ^ 53\<close>, and its error is at most half the spacing.
\<close>

lemma powi_nat: "0 \<le> k \<Longrightarrow> (2::real) powi k = 2 ^ nat k"
  by (simp add: power_int_def)

lemma ilog2_bounds:
  assumes "0 < x"
  shows "2 powi (ilog2 x) \<le> x" and "x < 2 powi (ilog2 x + 1)"
proof -
  show "2 powi (ilog2 x) \<le> x"
  proof (cases "1 \<le> x")
    case True
    define n where "n = \<lfloor>x\<rfloor>"
    have n: "0 < n" using True by (simp add: n_def)
    have b: "2 ^ nat (bitlen n - 1) \<le> n" using bitlen_bounds[OF n] by simp
    have "1 \<le> bitlen n" using n bitlen_ge_iff_power[of 1 n] by simp
    then have "(2::real) powi (bitlen n - 1) = 2 ^ nat (bitlen n - 1)"
      by (simp add: power_int_def)
    also have "\<dots> \<le> of_int n" using b by (metis of_int_le_iff of_int_numeral of_int_power)
    also have "\<dots> \<le> x" by (simp add: n_def)
    finally show ?thesis using True by (simp add: ilog2_def n_def)
  next
    case False
    define m where "m = \<lceil>1 / x\<rceil> - 1"
    have y: "1 < 1 / x" using False assms by simp
    have m: "0 < m" using y by (simp add: m_def) 
    have "1 / x \<le> of_int (m + 1)" by (simp add: m_def)
    moreover have "m + 1 \<le> 2 ^ nat (bitlen m)" using bitlen_bounds[OF m] by simp
    then have "real_of_int (m + 1) \<le> 2 ^ nat (bitlen m)"
      by (metis of_int_le_iff of_int_numeral of_int_power)
    ultimately have "1 / x \<le> 2 ^ nat (bitlen m)" by linarith
    then have "1 / 2 ^ nat (bitlen m) \<le> x" using assms
      by (simp add: field_simps)
    moreover have "(2::real) powi (- bitlen m) = 1 / 2 ^ nat (bitlen m)"
      by (simp only: power_int_minus_divide powi_nat[OF bitlen_nonneg])
    ultimately show ?thesis using False by (simp add: ilog2_def m_def)
  qed
  show "x < 2 powi (ilog2 x + 1)"
  proof (cases "1 \<le> x")
    case True
    define n where "n = \<lfloor>x\<rfloor>"
    have n: "0 < n" using True by (simp add: n_def)
    have b: "n + 1 \<le> 2 ^ nat (bitlen n)" using bitlen_bounds[OF n] by simp
    have "x < of_int (n + 1)" by (simp add: n_def)
    also have "\<dots> \<le> 2 ^ nat (bitlen n)" using b
      by (metis of_int_le_iff of_int_numeral of_int_power)
    also have "\<dots> = (2::real) powi (bitlen n)"
      by (simp only: powi_nat[OF bitlen_nonneg])
    finally show ?thesis using True by (simp add: ilog2_def n_def)
  next
    case False
    define m where "m = \<lceil>1 / x\<rceil> - 1"
    have y: "1 < 1 / x" using False assms by simp
    have m: "0 < m" using y by (simp add: m_def)
    have k: "1 \<le> bitlen m" using m bitlen_ge_iff_power[of 1 m] by simp
    have "2 ^ nat (bitlen m - 1) \<le> m" using bitlen_bounds[OF m] by simp
    then have "(2::real) ^ nat (bitlen m - 1) \<le> of_int m"
      by (metis of_int_le_iff of_int_numeral of_int_power)
    also have "of_int m < 1 / x" unfolding m_def by linarith
    finally have "x < 1 / 2 ^ nat (bitlen m - 1)" using assms
      by (simp add: field_simps)
    moreover have "(2::real) powi (- bitlen m + 1) = 1 / 2 ^ nat (bitlen m - 1)"
    proof -
      have "- bitlen m + 1 = - int (nat (bitlen m - 1))" using k by simp
      then show ?thesis by (simp only: power_int_minus_divide power_int_of_nat)
    qed
    ultimately show ?thesis using False by (simp add: ilog2_def m_def)
  qed
qed


lemma rte_of_int: "roundTiesToEven (of_int n) = n"
  by (simp add: roundTiesToEven_def)

lemma rte_bounds: "of_int (roundTiesToEven y) \<le> y + 1 / 2" "y - 1 / 2 \<le> of_int (roundTiesToEven y)"
  unfolding roundTiesToEven_def Let_def by (auto; linarith)+

lemma rte_mono:
  assumes "x \<le> y"
  shows "roundTiesToEven x \<le> roundTiesToEven y"
proof (cases "\<lfloor>x\<rfloor> = \<lfloor>y\<rfloor>")
  case True
  then show ?thesis using assms unfolding roundTiesToEven_def Let_def by auto
next
  case False
  then have "\<lfloor>x\<rfloor> + 1 \<le> \<lfloor>y\<rfloor>" using assms floor_mono[OF assms] by linarith
  moreover have "roundTiesToEven x \<le> \<lfloor>x\<rfloor> + 1" unfolding roundTiesToEven_def Let_def by auto
  moreover have "\<lfloor>y\<rfloor> \<le> roundTiesToEven y" unfolding roundTiesToEven_def Let_def by auto
  ultimately show ?thesis by linarith
qed

lemma rte_minus: "roundTiesToEven (- y) = - roundTiesToEven y"
proof (cases "y = of_int \<lfloor>y\<rfloor>")
  case True
  then obtain n where "y = of_int n" ..
  then have "- y = of_int (- n)" by simp
  then show ?thesis using \<open>y = of_int n\<close> rte_of_int by metis
next
  case False
  then have f: "\<lfloor>- y\<rfloor> = - \<lfloor>y\<rfloor> - 1"
    by (metis (no_types) ceiling_altdef ceiling_def add_diff_cancel_right' minus_diff_eq diff_minus_eq_add minus_add_distrib uminus_add_conv_diff)
  show ?thesis unfolding roundTiesToEven_def Let_def f by auto
qed


lemma quantum_pos: "0 < quantum x"
  by (simp add: quantum_def)

lemma quantum_minus: "quantum (- x) = quantum x"
  by (simp add: quantum_def bexp_def)

lemma fl_minus: "fl (- x) = - fl x"
  by (simp add: fl_def quantum_minus rte_minus)

lemma fl_nonneg:
  assumes "0 \<le> x"
  shows "0 \<le> fl x"
proof -
  have "0 \<le> x / quantum x" using assms quantum_pos[of x] by simp
  from rte_mono[OF this] have "0 \<le> roundTiesToEven (x / quantum x)"
    using rte_of_int[of 0] by simp
  then show ?thesis using quantum_pos[of x] by (simp add: fl_def)
qed

lemma quantum_bexp: "quantum x = 2 powi (bexp x - 52)"
  by (simp add: quantum_def)

lemma ilog2_mono:
  assumes "0 < x" "x \<le> y"
  shows "ilog2 x \<le> ilog2 y"
proof (rule ccontr)
  assume "\<not> ilog2 x \<le> ilog2 y"
  then have "ilog2 y + 1 \<le> ilog2 x" by simp
  then have "(2::real) powi (ilog2 y + 1) \<le> 2 powi (ilog2 x)"
    by (rule power_int_increasing) simp
  moreover have "y < 2 powi (ilog2 y + 1)" using ilog2_bounds(2)[of y] assms by simp
  moreover have "2 powi (ilog2 x) \<le> x" using ilog2_bounds(1)[OF assms(1)] .
  ultimately show False using assms by linarith
qed

lemma fl_upper:
  assumes "0 < x"
  shows "fl x \<le> 2 powi (bexp x + 1)"
proof -
  have q: "0 < quantum x" by (rule quantum_pos)
  have "x < 2 powi (ilog2 x + 1)" using ilog2_bounds(2)[OF assms] .
  also have "\<dots> \<le> 2 powi (bexp x + 1)"
    using assms by (intro power_int_increasing) (simp_all add: bexp_def)
  finally have "x < 2 powi (bexp x + 1)" .
  moreover have e: "(2::real) powi (bexp x + 1) = 2 ^ 53 * quantum x"
  proof -
    have "bexp x + 1 = 53 + (bexp x - 52)" by simp
    then have "(2::real) powi (bexp x + 1) = 2 powi 53 * 2 powi (bexp x - 52)"
      by (simp only: power_int_add[of "2::real", simplified])
    then show ?thesis by (simp add: quantum_bexp)
  qed
  ultimately have "x / quantum x \<le> of_int (2 ^ 53)" using q by (simp add: field_simps)
  from rte_mono[OF this] have "roundTiesToEven (x / quantum x) \<le> 2 ^ 53"
    by (simp only: rte_of_int)
  then have "real_of_int (roundTiesToEven (x / quantum x)) \<le> 2 ^ 53"
    by (metis of_int_le_iff of_int_numeral of_int_power)
  then have "real_of_int (roundTiesToEven (x / quantum x)) * quantum x \<le> 2 ^ 53 * quantum x"
    using q by (simp only: mult_le_cancel_right_pos)
  then show ?thesis using assms e by (simp add: fl_def)
qed

lemma fl_lower:
  assumes "0 < x" "- 1022 \<le> ilog2 x"
  shows "2 powi (bexp x) \<le> fl x"
proof -
  have q: "0 < quantum x" by (rule quantum_pos)
  have b: "bexp x = ilog2 x" using assms by (simp add: bexp_def)
  have "2 powi (bexp x) \<le> x" using ilog2_bounds(1)[OF assms(1)] b by simp
  moreover have e: "(2::real) powi (bexp x) = 2 ^ 52 * quantum x"
  proof -
    have "bexp x = 52 + (bexp x - 52)" by simp
    then have "(2::real) powi (bexp x) = 2 powi 52 * 2 powi (bexp x - 52)"
      by (metis power_int_add[of "2::real", simplified])
    then show ?thesis by (simp add: quantum_bexp)
  qed
  ultimately have "of_int (2 ^ 52) \<le> x / quantum x" using q by (simp add: field_simps)
  from rte_mono[OF this] have "2 ^ 52 \<le> roundTiesToEven (x / quantum x)"
    by (simp only: rte_of_int)
  then have "2 ^ 52 \<le> real_of_int (roundTiesToEven (x / quantum x))"
    by (metis of_int_le_iff of_int_numeral of_int_power)
  then have "2 ^ 52 * quantum x \<le> real_of_int (roundTiesToEven (x / quantum x)) * quantum x"
    using q by (simp only: mult_le_cancel_right_pos)
  then show ?thesis using assms e by (simp add: fl_def)
qed

lemma fl_mono_pos:
  assumes "0 < x" "x \<le> y"
  shows "fl x \<le> fl y"
proof -
  have y: "0 < y" using assms by simp
  have le: "bexp x \<le> bexp y" using ilog2_mono[of x y] assms by (simp add: bexp_def)
  show ?thesis
  proof (cases "bexp x = bexp y")
    case True
    then have q: "quantum x = quantum y" by (simp add: quantum_bexp)
    have "x / quantum y \<le> y / quantum y" using assms quantum_pos[of y]
      by (simp add: divide_right_mono)
    from rte_mono[OF this] show ?thesis using assms y quantum_pos[of y]
      by (simp add: fl_def q)
  next
    case False
    then have lt: "bexp x + 1 \<le> bexp y" using le by simp
    then have "- 1022 \<le> ilog2 y" "bexp y = ilog2 y"
      using y by (auto simp add: bexp_def max_def split: if_splits)
    then have "2 powi (bexp y) \<le> fl y" using fl_lower[OF y] by simp
    moreover have "fl x \<le> 2 powi (bexp x + 1)" by (rule fl_upper[OF assms(1)])
    moreover have "(2::real) powi (bexp x + 1) \<le> 2 powi (bexp y)"
      using lt by (rule power_int_increasing) simp
    ultimately show ?thesis by linarith
  qed
qed

lemma fl_mono:
  assumes "x \<le> y"
  shows "fl x \<le> fl y"
proof -
  consider "0 < x" | "x \<le> 0" "0 \<le> y" | "y < 0" by linarith
  then show ?thesis
  proof cases
    case 1
    then show ?thesis using assms by (rule fl_mono_pos)
  next
    case 2
    have "0 \<le> fl (- x)" using 2 by (intro fl_nonneg) simp
    then have "fl x \<le> 0" by (simp add: fl_minus)
    moreover have "0 \<le> fl y" using 2 by (intro fl_nonneg)
    ultimately show ?thesis by linarith
  next
    case 3
    have "fl (- y) \<le> fl (- x)" using 3 assms by (intro fl_mono_pos) simp_all
    then show ?thesis by (simp add: fl_minus)
  qed
qed


lemma fl_of_int:
  assumes "\<bar>n\<bar> < 2 ^ 53"
  shows "fl (of_int n) = of_int n"
proof (cases "n = 0")
  case True then show ?thesis by (simp add: fl_def)
next
  case False
  define x :: real where "x = \<bar>of_int n\<bar>"
  have x: "1 \<le> x" using False by (simp add: x_def) 
  have "ilog2 x = bitlen \<bar>n\<bar> - 1" using x unfolding ilog2_def x_def
    by (simp only: if_True) (simp flip: of_int_abs)
  moreover have "bitlen \<bar>n\<bar> \<le> 53" using assms bitlen_le_iff_power[of "\<bar>n\<bar>" 53] by simp
  moreover have "1 \<le> bitlen \<bar>n\<bar>" using False bitlen_ge_iff_power[of 1 "\<bar>n\<bar>"] by simp
  ultimately have e: "0 \<le> ilog2 x" "ilog2 x \<le> 52" by simp_all
  define k where "k = nat (52 - ilog2 x)"
  have "bexp (of_int n) - 52 = - int k" using e by (simp add: bexp_def k_def x_def)
  then have q: "quantum (of_int n) = 1 / 2 ^ k"
    by (simp only: quantum_bexp power_int_minus_divide power_int_of_nat)
  have "of_int n / quantum (of_int n) = real_of_int (n * 2 ^ k)" by (simp add: q)
  then have "roundTiesToEven (of_int n / quantum (of_int n)) = n * 2 ^ k"
    by (simp only: rte_of_int)
  then show ?thesis using False by (simp add: fl_def q)
qed

text \<open>A rounded value is a binary64 value: rounding it again changes nothing.\<close>

lemma ilog2_unique:
  assumes "0 < y" "2 powi n \<le> y" "y < 2 powi (n + 1)"
  shows "ilog2 y = n"
proof (rule ccontr)
  assume ne: "ilog2 y \<noteq> n"
  have b: "2 powi (ilog2 y) \<le> y" "y < 2 powi (ilog2 y + 1)"
    using ilog2_bounds[OF assms(1)] by simp_all
  show False
  proof (cases "ilog2 y < n")
    case True
    then have "(2::real) powi (ilog2 y + 1) \<le> 2 powi n"
      by (intro power_int_increasing) simp_all
    with b(2) assms(2) show False by linarith
  next
    case False
    with ne have "n + 1 \<le> ilog2 y" by simp
    then have "(2::real) powi (n + 1) \<le> 2 powi (ilog2 y)"
      by (intro power_int_increasing) simp_all
    with b(1) assms(3) show False by linarith
  qed
qed

lemma powi_split2: "(2::real) powi (e + 1) = 2 ^ 52 * 2 powi (e + 1 - 52)"
proof -
  have "e + 1 = 52 + (e + 1 - 52)" by simp
  then have "(2::real) powi (e + 1) = 2 powi 52 * 2 powi (e + 1 - 52)"
    by (metis power_int_add[of "2::real", simplified])
  then show ?thesis by simp
qed

lemma fl_idem_pos:
  assumes "0 < x"
  shows "fl (fl x) = fl x"
proof -
  define e where "e = bexp x"
  define q where "q = quantum x"
  define k where "k = roundTiesToEven (x / q)"
  have q: "0 < q" "q = 2 powi (e - 52)" by (simp_all add: q_def quantum_pos quantum_def e_def)
  have fx: "fl x = of_int k * q" using assms by (simp add: fl_def k_def q_def)
  have up: "fl x \<le> 2 powi (e + 1)" using fl_upper[OF assms] by (simp add: e_def)
  have nn: "0 \<le> fl x" using assms by (intro fl_nonneg) simp
  consider "fl x = 0" | "0 < fl x" "fl x < 2 powi (e + 1)" | "fl x = 2 powi (e + 1)"
    using up nn by linarith
  then show ?thesis
  proof cases
    case 1
    then show ?thesis by (simp add: fl_def)
  next
    case 2
    have "bexp (fl x) = e"
    proof (cases "- 1022 \<le> ilog2 x")
      case True
      then have "2 powi e \<le> fl x" using fl_lower[OF assms True] by (simp add: e_def)
      from ilog2_unique[OF 2(1) this 2(2)] True assms show ?thesis
        by (simp add: bexp_def e_def 2(1) abs_of_pos)
    next
      case False
      then have e: "e = - 1022" using assms by (simp add: e_def bexp_def)
      have "ilog2 (fl x) \<le> - 1022"
      proof (rule ccontr)
        assume "\<not> ilog2 (fl x) \<le> - 1022"
        then have "- 1021 \<le> ilog2 (fl x)" by simp
        then have "(2::real) powi (- 1021) \<le> 2 powi (ilog2 (fl x))"
          by (intro power_int_increasing) simp_all
        also have "\<dots> \<le> fl x" using ilog2_bounds(1)[OF 2(1)] .
        finally show False using 2(2) e by simp
      qed
      then show ?thesis using 2(1) by (simp add: bexp_def e abs_of_pos)
    qed
    then have "quantum (fl x) = q" by (simp add: quantum_def q(2))
    moreover have "fl x / q = of_int k" using q(1) by (simp add: fx)
    ultimately have r: "roundTiesToEven (fl x / quantum (fl x)) = k"
      by (simp only: rte_of_int)
    have "fl (fl x) = of_int (roundTiesToEven (fl x / quantum (fl x))) * quantum (fl x)"
      using 2(1) by (simp add: fl_def[of "fl x"])
    also have "\<dots> = of_int k * q" using r \<open>quantum (fl x) = q\<close> by simp
    finally show ?thesis by (simp only: fx)
  next
    case 3
    have pos: "0 < fl x" unfolding 3 by simp
    have "2 powi (e + 1) \<le> fl x" "fl x < 2 powi (e + 1 + 1)"
      unfolding 3 by (simp, intro power_int_strict_increasing, simp_all)
    from ilog2_unique[OF pos this] have il: "ilog2 (fl x) = e + 1" .
    have "- 1022 \<le> e" by (simp add: e_def bexp_def)
    then have be: "bexp (fl x) = e + 1" using il pos by (simp add: bexp_def abs_of_pos)
    then have q': "quantum (fl x) = 2 powi (e + 1 - 52)" by (simp add: quantum_def)
    have a: "fl x = 2 ^ 52 * 2 powi (e + 1 - 52)"
      using 3 powi_split2[of e] by simp
    have "fl x = 2 ^ 52 * quantum (fl x)" unfolding q' by (rule a)
    then have "fl x / quantum (fl x) = 2 ^ 52"
      using quantum_pos[of "fl x"] by (simp add: field_simps)
    then have "fl x / quantum (fl x) = of_int (2 ^ 52)" by simp
    then have "roundTiesToEven (fl x / quantum (fl x)) = 2 ^ 52"
      by (simp only: rte_of_int)
    then have r: "real_of_int (roundTiesToEven (fl x / quantum (fl x))) = 2 ^ 52"
      by simp
    have "fl (fl x) = of_int (roundTiesToEven (fl x / quantum (fl x))) * quantum (fl x)"
      using pos by (simp add: fl_def[of "fl x"])
    then have "fl (fl x) = 2 ^ 52 * 2 powi (e + 1 - 52)"
      using r q' by simp
    then show ?thesis unfolding 3 by (simp only: powi_split2[symmetric])
  qed
qed

lemma fl_idem: "fl (fl x) = fl x"
proof -
  consider "0 < x" | "x = 0" | "x < 0" by linarith
  then show ?thesis
  proof cases
    case 1 then show ?thesis by (rule fl_idem_pos)
  next
    case 2 then show ?thesis by (simp add: fl_def)
  next
    case 3
    then have "fl (fl (- x)) = fl (- x)" by (intro fl_idem_pos) simp
    then show ?thesis by (simp add: fl_minus)
  qed
qed

lemma fl_error: "\<bar>fl x - x\<bar> \<le> quantum x / 2"
proof (cases "x = 0")
  case True
  then show ?thesis using quantum_pos[of x] by (simp add: fl_def)
next
  case False
  define q where "q = quantum x"
  define y where "y = x / q"
  have q: "0 < q" by (simp add: q_def quantum_pos)
  have "\<bar>of_int (roundTiesToEven y) - y\<bar> \<le> 1 / 2"
    using rte_bounds[of y] by linarith
  then have "\<bar>of_int (roundTiesToEven y) - y\<bar> * q \<le> 1 / 2 * q"
    using q by (intro mult_right_mono) simp_all
  moreover have "fl x - x = (of_int (roundTiesToEven y) - y) * q"
    using False q by (simp add: fl_def q_def[symmetric] y_def algebra_simps)
  ultimately show ?thesis using q by (simp add: abs_mult q_def)
qed

text \<open>
  Values that every binary64 implementation gives: \<open>0.1\<close>, \<open>1.1 * 1.1\<close> (which prints as
  \<open>1.2100000000000002\<close>), \<open>0.1 * 3\<close> (\<open>0.30000000000000004\<close>, not the literal \<open>0.3\<close>),
  \<open>1 / 3\<close>, and the two integers above \<open>2 ^ 53\<close> that lie half way between their
  neighbours.
\<close>

lemma fl_tenth: "fl (1 / 10) = 3602879701896397 / 36028797018963968"
  by code_simp

lemma js_times_example: "js_times (fl (11 / 10)) (fl (11 / 10)) = 5449355549118301 / 4503599627370496"
  by code_simp

lemma js_times_three_tenths:
  "js_times (fl (1 / 10)) 3 = 1351079888211149 / 4503599627370496
   \<and> fl (3 / 10) = 5404319552844595 / 18014398509481984"
  by code_simp

lemma js_divide_third: "js_divide 1 3 = Some (6004799503160661 / 18014398509481984)"
  by code_simp

lemma fl_ties_to_even:
  "fl 9007199254740993 = 9007199254740992 \<and> fl 9007199254740995 = 9007199254740996"
  by code_simp

lemma Math_round_mono: "x \<le> y \<Longrightarrow> Math_round x \<le> Math_round y"
  by (simp add: Math_round_def floor_mono)

lemma js_times_mono: "0 \<le> b \<Longrightarrow> x \<le> y \<Longrightarrow> js_times b x \<le> js_times b y"
  by (simp add: js_times_def fl_mono mult_left_mono)

lemma Math_round_ge_int: "of_int n \<le> x \<Longrightarrow> of_int n \<le> Math_round x"
proof -
  assume "of_int n \<le> x"
  then have "n \<le> \<lfloor>x + 1 / 2\<rfloor>" by (simp add: le_floor_iff)
  then show ?thesis by (simp add: Math_round_def)
qed

section \<open>The theme deriver\<close>

subsection \<open>The derived token\<close>

text \<open>
  Claim C1. For every base size \<open>b\<close>, scale factor \<open>s\<close> and cap \<open>k\<close> the derived value is
  \<open>round (b * min s k)\<close>, the product being the binary64 one, and every entry of
  \<open>createScaledFontSizes\<close> is this value for its base size and the cap of its category.
  In particular \<open>derive 10 3.0 1.8 = 18\<close> and \<open>derive 16 0.5 2.0 = 8\<close>, and at the scale
  factor \<open>2.0\<close> the heading size of base \<open>48\<close> (cap \<open>1.4\<close>) is \<open>67\<close>, the body size of base
  \<open>14\<close> (cap \<open>2.0\<close>) is \<open>28\<close>, and the size of the \<open>button\<close> variant, of base \<open>14\<close>
  (cap \<open>1.3\<close>), is \<open>18\<close>.
\<close>

theorem derived_token_formula:
  "applyScale b s k = Math_round (js_times b (min s k))
   \<and> createScaledFontSizes s key
       = Math_round (js_times (baseFontSizes key) (min s (scaleCaps (fontSizeCategory key))))
   \<and> applyScale 10 3 (fl (18 / 10)) = 18
   \<and> applyScale 16 (1 / 2) 2 = 8
   \<and> baseFontSizes XL6 = 48 \<and> scaleCaps Heading = fl (14 / 10) \<and> createScaledFontSizes 2 XL6 = 67
   \<and> baseFontSizes MD = 14 \<and> scaleCaps Body = 2 \<and> createScaledFontSizes 2 MD = 28
   \<and> scaleCaps Button = fl (13 / 10)
   \<and> map_of (textVariants (createScaledTheme 2 n)) ''button'' = Some \<lparr>fontSize = 18, lineHeight = 27\<rparr>"
proof -
  have 1: "applyScale b s k = Math_round (js_times b (min s k))"
    by (simp add: applyScale_def)
  have 2: "createScaledFontSizes s key
       = Math_round (js_times (baseFontSizes key) (min s (scaleCaps (fontSizeCategory key))))"
    by (cases key) (simp_all add: applyScale_def)
  have 3: "applyScale 10 3 (fl (18 / 10)) = 18" by code_simp
  have 4: "applyScale 16 (1 / 2) 2 = 8" by code_simp
  have 5: "createScaledFontSizes 2 XL6 = 67" by code_simp
  have 6: "createScaledFontSizes 2 MD = 28" by code_simp
  have 7: "applyScale (baseFontSizes MD) 2 (scaleCaps Button) = 18" by code_simp
  have 8: "Math_round (js_times 18 (lineHeightMultipliers Normal)) = 27" by code_simp
  have 9: "map_of (textVariants (createScaledTheme 2 n)) ''button'' = Some \<lparr>fontSize = 18, lineHeight = 27\<rparr>"
    by (simp add: createScaledTheme_def Let_def 7 8 del: baseFontSizes.simps scaleCaps.simps lineHeightMultipliers.simps)
  from 1 2 3 4 5 6 9 show ?thesis by simp
qed

text \<open>
  The product is the binary64 one. For the base size \<open>10\<close> and the scale factor \<open>1.15\<close>
  it is \<open>11.5\<close> and the token is \<open>12\<close>, while the exact product of \<open>10\<close> and the
  binary64 value of \<open>1.15\<close> is below \<open>11.5\<close> and would round to \<open>11\<close>.
\<close>

lemma product_rounding_example:
  "applyScale 10 (fl (115 / 100)) (fl (18 / 10)) = 12
   \<and> js_times 10 (fl (115 / 100)) = 23 / 2
   \<and> 10 * fl (115 / 100) < 23 / 2
   \<and> \<lfloor>10 * fl (115 / 100) + 1 / 2\<rfloor> = 11"
  by code_simp

subsection \<open>Monotonicity\<close>

lemma applyScale_mono:
  assumes "0 \<le> b" "s1 \<le> s2"
  shows "applyScale b s1 c \<le> applyScale b s2 c"
proof -
  have "min s1 c \<le> min s2 c" using assms(2) by (simp add: min_le_iff_disj)
  from js_times_mono[OF assms(1) this] show ?thesis
    by (simp add: applyScale_def Math_round_mono)
qed

lemma applyScale_past_cap: "c \<le> s1 \<Longrightarrow> c \<le> s2 \<Longrightarrow> applyScale b s1 c = applyScale b s2 c"
  by (simp add: applyScale_def min_absorb2)

lemma baseFontSizes_nonneg: "0 \<le> baseFontSizes key"
  by (cases key) simp_all

lemma baseSpacing_nonneg: "(k, v) \<in> set baseSpacing \<Longrightarrow> 0 \<le> v"
  by (auto simp add: baseSpacing_def)

lemma createScaledFontSizes_applyScale:
  "createScaledFontSizes s key = applyScale (baseFontSizes key) s (scaleCaps (fontSizeCategory key))"
  by (cases key) simp_all

lemma createScaledSpacing_entry:
  assumes "(k, v) \<in> set baseSpacing"
  shows "createScaledSpacing s k = Some (if v = 0 then 0 else applyScale v s (scaleCaps Spacing))"
proof -
  define c where "c = scaleCaps Spacing"
  have "(k, v) \<in> {(''none'', 0), (''xs'', 4), (''sm'', 8), (''md'', 12), (''lg'', 16), (''xl'', 20),
      (''2xl'', 24), (''3xl'', 32), (''4xl'', 40), (''5xl'', 48), (''6xl'', 64)}"
    using assms by (simp add: baseSpacing_def)
  then show ?thesis
    unfolding c_def[symmetric]
    by (elim insertE emptyE; simp add: createScaledSpacing_def baseSpacing_def scaleEntry_def negated_def Let_def
      c_def[symmetric] del: scaleCaps.simps)
qed

text \<open>
  Claim C4. For every cap \<open>c\<close> and every base size (none is negative) the derived size
  does not decrease when the scale factor grows, and two scale factors that are both at
  least \<open>c\<close> give the same size. This holds of \<open>applyScale\<close> for any base value that is
  not negative, of every entry of \<open>createScaledFontSizes\<close> and of every entry that
  \<open>createScaledSpacing\<close> derives from \<open>baseSpacing\<close>.
\<close>

theorem derived_size_monotone:
  "(0 \<le> b \<and> s1 \<le> s2 \<longrightarrow> applyScale b s1 c \<le> applyScale b s2 c)
   \<and> (c \<le> s1 \<and> c \<le> s2 \<longrightarrow> applyScale b s1 c = applyScale b s2 c)
   \<and> (s1 \<le> s2 \<longrightarrow> createScaledFontSizes s1 key \<le> createScaledFontSizes s2 key)
   \<and> (scaleCaps (fontSizeCategory key) \<le> s1 \<and> scaleCaps (fontSizeCategory key) \<le> s2
        \<longrightarrow> createScaledFontSizes s1 key = createScaledFontSizes s2 key)
   \<and> ((k, v) \<in> set baseSpacing
        \<longrightarrow> (\<exists>v1 v2. createScaledSpacing s1 k = Some v1 \<and> createScaledSpacing s2 k = Some v2
               \<and> (s1 \<le> s2 \<longrightarrow> v1 \<le> v2)
               \<and> (scaleCaps Spacing \<le> s1 \<and> scaleCaps Spacing \<le> s2 \<longrightarrow> v1 = v2)))"
proof (intro conjI impI)
  show "applyScale b s1 c \<le> applyScale b s2 c" if "0 \<le> b \<and> s1 \<le> s2"
    using that applyScale_mono by blast
  show "applyScale b s1 c = applyScale b s2 c" if "c \<le> s1 \<and> c \<le> s2"
    using that applyScale_past_cap by blast
  show "createScaledFontSizes s1 key \<le> createScaledFontSizes s2 key" if "s1 \<le> s2"
    unfolding createScaledFontSizes_applyScale
    using that baseFontSizes_nonneg by (rule applyScale_mono[rotated])
  show "createScaledFontSizes s1 key = createScaledFontSizes s2 key"
    if "scaleCaps (fontSizeCategory key) \<le> s1 \<and> scaleCaps (fontSizeCategory key) \<le> s2"
    unfolding createScaledFontSizes_applyScale
    using that applyScale_past_cap by blast
  show "\<exists>v1 v2. createScaledSpacing s1 k = Some v1 \<and> createScaledSpacing s2 k = Some v2
               \<and> (s1 \<le> s2 \<longrightarrow> v1 \<le> v2)
               \<and> (scaleCaps Spacing \<le> s1 \<and> scaleCaps Spacing \<le> s2 \<longrightarrow> v1 = v2)"
    if m: "(k, v) \<in> set baseSpacing"
  proof (intro exI conjI impI)
    show "createScaledSpacing s1 k = Some (if v = 0 then 0 else applyScale v s1 (scaleCaps Spacing))"
      by (rule createScaledSpacing_entry[OF m])
    show "createScaledSpacing s2 k = Some (if v = 0 then 0 else applyScale v s2 (scaleCaps Spacing))"
      by (rule createScaledSpacing_entry[OF m])
    show "(if v = 0 then 0 else applyScale v s1 (scaleCaps Spacing))
          \<le> (if v = 0 then 0 else applyScale v s2 (scaleCaps Spacing))" if "s1 \<le> s2"
      using applyScale_mono[OF baseSpacing_nonneg[OF m] that] by simp
    show "(if v = 0 then 0 else applyScale v s1 (scaleCaps Spacing))
          = (if v = 0 then 0 else applyScale v s2 (scaleCaps Spacing))"
      if "scaleCaps Spacing \<le> s1 \<and> scaleCaps Spacing \<le> s2"
      using that applyScale_past_cap[of "scaleCaps Spacing" s1 s2 v] by simp
  qed
qed

theorem derived_size_monotone_witness:
  "(0::real) \<le> 14 \<and> (1::real) \<le> 2 \<and> applyScale 14 1 (fl (13 / 10)) = 14
   \<and> applyScale 14 2 (fl (13 / 10)) = 18 \<and> applyScale 14 3 (fl (13 / 10)) = 18
   \<and> applyScale 14 1 (fl (13 / 10)) \<le> applyScale 14 2 (fl (13 / 10))
   \<and> fl (13 / 10) \<le> 2 \<and> fl (13 / 10) \<le> 3
   \<and> applyScale 14 2 (fl (13 / 10)) = applyScale 14 3 (fl (13 / 10))
   \<and> createScaledFontSizes 1 XL6 \<le> createScaledFontSizes 2 XL6
   \<and> scaleCaps (fontSizeCategory XL6) \<le> 2 \<and> scaleCaps (fontSizeCategory XL6) \<le> 3
   \<and> createScaledFontSizes 2 XL6 = createScaledFontSizes 3 XL6
   \<and> (''md'', 12) \<in> set baseSpacing
   \<and> createScaledSpacing 1 ''md'' = Some 12 \<and> createScaledSpacing 2 ''md'' = Some 18"
proof -
  have v1: "applyScale 14 1 (fl (13 / 10)) = 14" by code_simp
  have v2: "applyScale 14 2 (fl (13 / 10)) = 18" by code_simp
  have v3: "applyScale 14 3 (fl (13 / 10)) = 18" by code_simp
  have v4: "fl (13 / 10) \<le> 2" by code_simp
  have v5: "scaleCaps (fontSizeCategory XL6) \<le> 2" by code_simp
  note v = v1 v2 v3 v4 v5
  have m: "(''md'', 12) \<in> set baseSpacing" by (simp add: baseSpacing_def)
  have sp1: "createScaledSpacing 1 ''md'' = Some 12" by code_simp
  have sp2: "createScaledSpacing 2 ''md'' = Some 18" by code_simp
  note sp = sp1 sp2
  from derived_size_monotone[of 14 1 2 "fl (13 / 10)" XL6 "''md''" 12]
  have "applyScale 14 1 (fl (13 / 10)) \<le> applyScale 14 2 (fl (13 / 10))
        \<and> createScaledFontSizes 1 XL6 \<le> createScaledFontSizes 2 XL6"
    by simp
  moreover from derived_size_monotone[of 14 2 3 "fl (13 / 10)" XL6 "''md''" 12] v
  have "applyScale 14 2 (fl (13 / 10)) = applyScale 14 3 (fl (13 / 10))
        \<and> createScaledFontSizes 2 XL6 = createScaledFontSizes 3 XL6"
    by (simp del: createScaledFontSizes.simps scaleCaps.simps fontSizeCategory.simps)
  ultimately show ?thesis using v m sp
    by (simp del: createScaledFontSizes.simps scaleCaps.simps fontSizeCategory.simps)
qed

subsection \<open>Line heights\<close>

lemma scaleCaps_bounds: "0 \<le> scaleCaps c \<and> scaleCaps c \<le> 2"
  by (cases c; hypsubst; code_simp)

lemma lineHeightMultipliers_ge_1: "1 \<le> lineHeightMultipliers k"
  by (cases k; hypsubst; code_simp)

lemma baseFontSizes_le: "baseFontSizes key \<le> 48"
  by (cases key) simp_all

lemma applyScale_int_bounds:
  assumes "0 \<le> b" "b \<le> 48" "0 \<le> s" "0 \<le> c" "c \<le> 2"
  shows "\<exists>n. applyScale b s c = of_int n \<and> 0 \<le> n \<and> n \<le> 96"
proof -
  define x where "x = b * min s c"
  have x0: "0 \<le> x" using assms by (simp add: x_def)
  have "min s c \<le> 2" using assms by simp
  then have "b * min s c \<le> 48 * 2" using assms by (intro mult_mono) simp_all
  then have x96: "x \<le> of_int 96" by (simp add: x_def)
  have f0: "0 \<le> fl x" by (rule fl_nonneg[OF x0])
  have "fl x \<le> fl (of_int 96)" by (rule fl_mono[OF x96])
  then have f96: "fl x \<le> 96" using fl_of_int[of 96] by simp
  define n where "n = \<lfloor>fl x + 1 / 2\<rfloor>"
  have "0 \<le> n" using f0 by (simp add: n_def)
  moreover have "n \<le> 96" using f96 unfolding n_def by linarith
  moreover have "applyScale b s c = of_int n"
    by (simp add: applyScale_def js_times_def Math_round_def n_def x_def)
  ultimately show ?thesis by blast
qed

lemma lineHeight_ge_fontSize:
  assumes "0 \<le> n" "n \<le> 96" "1 \<le> m"
  shows "of_int n \<le> Math_round (js_times (of_int n) m)"
proof -
  have "real_of_int n * 1 \<le> of_int n * m" using assms by (intro mult_left_mono) simp_all
  then have "fl (of_int n) \<le> fl (of_int n * m)" by (intro fl_mono) simp
  moreover have "fl (of_int n) = of_int n" using assms by (intro fl_of_int) simp
  ultimately have "of_int n \<le> js_times (of_int n) m" by (simp add: js_times_def)
  then show ?thesis by (rule Math_round_ge_int)
qed

lemma textVariants_shape:
  assumes "(name, v) \<in> set (textVariants (createScaledTheme s n))"
  shows "lineHeight v = Math_round (js_times (fontSize v) (lineHeightMultipliers (variantMultiplier name)))
         \<and> (\<exists>key c. fontSize v = applyScale (baseFontSizes key) s (scaleCaps c))"
proof -
  have fs: "\<exists>key c. createScaledFontSizes s k = applyScale (baseFontSizes key) s (scaleCaps c)" for k
    using createScaledFontSizes_applyScale by blast
  have bt: "\<exists>key c. applyScale (baseFontSizes k) s (scaleCaps Button)
                    = applyScale (baseFontSizes key) s (scaleCaps c)" for k
    by blast
  from assms show ?thesis
    unfolding createScaledTheme_def Let_def
    by (simp del: createScaledFontSizes.simps baseFontSizes.simps scaleCaps.simps lineHeightMultipliers.simps
           add: variantMultiplier_def) (elim disjE; simp add: fs bt del: createScaledFontSizes.simps baseFontSizes.simps scaleCaps.simps lineHeightMultipliers.simps)
qed

text \<open>
  Claim C5. Every text variant of the derived theme has the line height
  \<open>round (fontSize * m)\<close>, where \<open>m\<close> is the multiplier its literal names (\<open>tight\<close> for the
  headings \<open>h1\<close> to \<open>h6\<close>, \<open>normal\<close> for the others). For a scale factor that is not
  negative (the scale factor of the specification is positive) every multiplier
  \<open>m \<ge> 1\<close> gives a line height that is at least the font size, and so does the
  variant's own.
\<close>

theorem line_height_formula:
  assumes "(name, v) \<in> set (textVariants (createScaledTheme s n))"
  shows "lineHeight v = Math_round (js_times (fontSize v) (lineHeightMultipliers (variantMultiplier name)))
       \<and> (0 \<le> s \<and> 1 \<le> m \<longrightarrow> fontSize v \<le> Math_round (js_times (fontSize v) m))
       \<and> (0 \<le> s \<longrightarrow> fontSize v \<le> lineHeight v)"
proof -
  from textVariants_shape[OF assms] obtain key c where
    lh: "lineHeight v = Math_round (js_times (fontSize v) (lineHeightMultipliers (variantMultiplier name)))"
    and fs: "fontSize v = applyScale (baseFontSizes key) s (scaleCaps c)"
    by blast
  have ge: "fontSize v \<le> Math_round (js_times (fontSize v) m')" if "0 \<le> s" "1 \<le> m'" for m'
  proof -
    from applyScale_int_bounds[OF baseFontSizes_nonneg baseFontSizes_le that(1)
        conjunct1[OF scaleCaps_bounds] conjunct2[OF scaleCaps_bounds], of key c]
    obtain k where k: "fontSize v = of_int k" "0 \<le> k" "k \<le> 96"
      unfolding fs by blast
    from lineHeight_ge_fontSize[OF k(2) k(3) that(2)] show ?thesis
      by (simp add: k(1))
  qed
  have "fontSize v \<le> lineHeight v" if "0 \<le> s"
    unfolding lh using ge[OF that lineHeightMultipliers_ge_1] .
  with lh ge show ?thesis by blast
qed

theorem line_height_formula_witness:
  "(''h1'', \<lparr>fontSize = 67, lineHeight = 80\<rparr>) \<in> set (textVariants (createScaledTheme 2 0))
   \<and> (0::real) \<le> 2 \<and> (1::real) \<le> 3
   \<and> variantMultiplier ''h1'' = Tight
   \<and> Math_round (js_times 67 (lineHeightMultipliers Tight)) = 80
   \<and> (67::real) \<le> Math_round (js_times 67 3)
   \<and> (67::real) \<le> 80"
proof -
  have a: "createScaledFontSizes 2 XL6 = 67" by code_simp
  have b: "Math_round (js_times 67 (lineHeightMultipliers Tight)) = 80" by code_simp
  have m: "(''h1'', \<lparr>fontSize = 67, lineHeight = 80\<rparr>) \<in> set (textVariants (createScaledTheme 2 0))"
    by (simp add: createScaledTheme_def Let_def a b
        del: createScaledFontSizes.simps lineHeightMultipliers.simps baseFontSizes.simps
          scaleCaps.simps)
  have t: "variantMultiplier ''h1'' = Tight" by code_simp
  from line_height_formula[OF m, of 3] t show ?thesis using m by simp
qed

text \<open>
  The bound on the scale factor is needed: the exported \<open>createScaledTheme\<close> accepts a
  negative number, for which the sizes are negative and the line height is below the
  font size.
\<close>

lemma line_height_negative_scale:
  "map_of (textVariants (createScaledTheme (- 1) n)) ''body''
     = Some \<lparr>fontSize = - 14, lineHeight = - 21\<rparr>"
proof -
  have a: "createScaledFontSizes (- 1) MD = - 14" by code_simp
  have b: "Math_round (js_times (- 14) (lineHeightMultipliers Normal)) = - 21" by code_simp
  show ?thesis
    by (simp add: createScaledTheme_def Let_def a b
        del: createScaledFontSizes.simps lineHeightMultipliers.simps baseFontSizes.simps
          scaleCaps.simps)
qed

subsection \<open>Spacing\<close>

text \<open>
  Claim C8. For every scale factor, an entry of \<open>baseSpacing\<close> whose value is \<open>0\<close> is
  derived to exactly \<open>0\<close> in the scaled spacing table; the scale factors \<open>0.8\<close> and \<open>2.0\<close>
  of the default bounds are among them.
\<close>

theorem zero_spacing_preserved:
  "(key, 0) \<in> set baseSpacing \<Longrightarrow> createScaledSpacing s key = Some 0"
  by (auto simp add: createScaledSpacing_def baseSpacing_def scaleEntry_def Let_def)

theorem zero_spacing_preserved_witness:
  "(''none'', 0) \<in> set baseSpacing \<and> createScaledSpacing (fl (8 / 10)) ''none'' = Some 0
   \<and> createScaledSpacing 2 ''none'' = Some 0"
proof -
  have m: "(''none'', 0) \<in> set baseSpacing" by (simp add: baseSpacing_def)
  from zero_spacing_preserved[OF m] m show ?thesis by simp
qed

text \<open>
  Claim C9. For every scale factor, each of the keys \<open>-xs\<close>, \<open>-sm\<close>, \<open>-md\<close>, \<open>-lg\<close>, \<open>-xl\<close>
  and \<open>-2xl\<close> is in the derived spacing table with the negation of the value derived for
  the key without the sign; and whatever key of the table starts with the sign, its
  value and the value of the key without it are each other's negation.
\<close>

theorem negative_spacing_symmetry:
  "(key \<in> set [''xs'', ''sm'', ''md'', ''lg'', ''xl'', ''2xl'']
      \<longrightarrow> (\<exists>v. createScaledSpacing s key = Some v
                \<and> createScaledSpacing s (CHR ''-'' # key) = Some (- v)))
   \<and> (createScaledSpacing s (CHR ''-'' # key) = Some w
      \<longrightarrow> createScaledSpacing s key = Some (- w))"
  by (auto simp add: createScaledSpacing_def baseSpacing_def scaleEntry_def negated_def Let_def
      split: if_splits)

theorem negative_spacing_symmetry_witness:
  "''md'' \<in> set [''xs'', ''sm'', ''md'', ''lg'', ''xl'', ''2xl'']
   \<and> createScaledSpacing 2 ''md'' = Some 18 \<and> createScaledSpacing 2 ''-md'' = Some (- 18)"
proof -
  have m: "''md'' \<in> set [''xs'', ''sm'', ''md'', ''lg'', ''xl'', ''2xl'']" by simp
  have v: "createScaledSpacing 2 ''md'' = Some 18" by code_simp
  from negative_spacing_symmetry[of "''md''" 2] m v show ?thesis by simp
qed

section \<open>The scale monitor\<close>

subsection \<open>Clamping\<close>

lemma clamp_range: "mn \<le> mx \<Longrightarrow> mn \<le> clamp v mn mx \<and> clamp v mn mx \<le> mx"
  by (auto simp add: clamp_def)

lemma clamp_id: "mn \<le> v \<Longrightarrow> v \<le> mx \<Longrightarrow> clamp v mn mx = v"
  by (simp add: clamp_def)

lemma initialState_fontScale:
  assumes "initialState options p g = Inr r"
  shows "\<exists>s. getFontScaleSync p = Inr s \<and> fontScale r = clamp s (minScaleOf options) (maxScaleOf options)"
  using assms by (auto simp add: initialState_def Let_def split: sum.splits)

lemma updateFontScale_fontScale:
  assumes "updateFontScale options p g = Inr (g', r)"
  shows "\<exists>s. getNativeFontScale p = Inr s \<and> fontScale r = clamp s (minScaleOf options) (maxScaleOf options)"
  using assms by (auto simp add: updateFontScale_def Let_def split: sum.splits)

lemma getFontScale_fontScale:
  assumes "getFontScale options p = Inr r"
  shows "\<exists>s. getNativeFontScale p = Inr s \<and> fontScale r = clamp s (minScaleOf options) (maxScaleOf options)"
  using assms by (auto simp add: getFontScale_def Let_def split: sum.splits)

lemma handleEvent_inRange:
  assumes "minScaleOf options \<le> maxScaleOf options" "inRange options (state h)"
  shows "inRange options (state (handleEvent options h ep))"
proof (cases "triggers options (fst ep)")
  case False
  then show ?thesis using assms by (simp add: handleEvent_def)
next
  case True
  show ?thesis
  proof (cases "updateFontScale options (snd ep) (globalUpdateCount h)")
    case (Inl e)
    then show ?thesis using True assms by (simp add: handleEvent_def)
  next
    case (Inr gr)
    obtain g r where gr: "gr = (g, r)" by (cases gr)
    from updateFontScale_fontScale[OF Inr[unfolded gr]] clamp_range[OF assms(1)]
    have "inRange options r" by (auto simp add: inRange_def)
    then show ?thesis using True Inr gr by (simp add: handleEvent_def)
  qed
qed

lemma foldl_handleEvent_inRange:
  assumes "minScaleOf options \<le> maxScaleOf options"
  shows "inRange options (state h) \<Longrightarrow> inRange options (state (foldl (handleEvent options) h events))"
proof (induction events arbitrary: h)
  case Nil
  then show ?case by simp
next
  case (Cons ep events)
  from handleEvent_inRange[OF assms Cons.prems] Cons.IH show ?case by simp
qed

text \<open>
  Claim C2. For every configuration with \<open>minScale \<le> maxScale\<close> and every native reading
  \<open>s\<close>, \<open>clamp s minScale maxScale\<close> lies between the bounds and is \<open>s\<close> when \<open>s\<close> does. The
  scale factor of the initial state, of the state an update sets and of the result of
  \<open>getFontScale\<close> is the clamped reading, and the state the hook returns after any
  sequence of events has its scale factor between the bounds.
\<close>

theorem published_scale_clamped:
  assumes "minScaleOf options \<le> maxScaleOf options"
  shows "minScaleOf options \<le> clamp s (minScaleOf options) (maxScaleOf options)
       \<and> clamp s (minScaleOf options) (maxScaleOf options) \<le> maxScaleOf options
       \<and> (minScaleOf options \<le> s \<and> s \<le> maxScaleOf options
            \<longrightarrow> clamp s (minScaleOf options) (maxScaleOf options) = s)
       \<and> (initialState options p g = Inr r
            \<longrightarrow> (\<exists>v. getFontScaleSync p = Inr v
                     \<and> fontScale r = clamp v (minScaleOf options) (maxScaleOf options)))
       \<and> (updateFontScale options p g = Inr (g', r)
            \<longrightarrow> (\<exists>v. getNativeFontScale p = Inr v
                     \<and> fontScale r = clamp v (minScaleOf options) (maxScaleOf options)))
       \<and> (getFontScale options p = Inr r
            \<longrightarrow> (\<exists>v. getNativeFontScale p = Inr v
                     \<and> fontScale r = clamp v (minScaleOf options) (maxScaleOf options)))
       \<and> (useFontScale options p g events = Inr h
            \<longrightarrow> minScaleOf options \<le> fontScale (state h) \<and> fontScale (state h) \<le> maxScaleOf options)"
proof -
  have "useFontScale options p g events = Inr h
        \<Longrightarrow> minScaleOf options \<le> fontScale (state h) \<and> fontScale (state h) \<le> maxScaleOf options"
  proof -
    assume u: "useFontScale options p g events = Inr h"
    then obtain r0 where r0: "initialState options p g = Inr r0"
      and h: "h = foldl (handleEvent options) \<lparr>globalUpdateCount = g, state = r0\<rparr> events"
      by (auto simp add: useFontScale_def split: sum.splits)
    from initialState_fontScale[OF r0] clamp_range[OF assms]
    have "inRange options (state \<lparr>globalUpdateCount = g, state = r0\<rparr>)"
      by (auto simp add: inRange_def)
    from foldl_handleEvent_inRange[OF assms this] h show ?thesis
      by (simp add: inRange_def)
  qed
  then show ?thesis
    using clamp_range[OF assms, of s] clamp_id[of "minScaleOf options" s "maxScaleOf options"]
      initialState_fontScale[of options p g r] updateFontScale_fontScale[of options p g g' r]
      getFontScale_fontScale[of options p r]
    by blast
qed

theorem published_scale_clamped_witness:
  "minScaleOf defaultOptions \<le> maxScaleOf defaultOptions
   \<and> getFontScaleSync (examplePlatform (7 / 2) 1) = Inr (7 / 2)
   \<and> initialState defaultOptions (examplePlatform (7 / 2) 1) 0
       = Inr \<lparr>fontScale = 2, fontScaleCorrection = Some 2, cachedFontScale = 1,
              updateCount = Some 0\<rparr>
   \<and> useFontScale defaultOptions (examplePlatform (7 / 2) 1) 0 [(Mounted, examplePlatform (7 / 2) 1)]
       = Inr \<lparr>globalUpdateCount = 1, state = \<lparr>fontScale = 2, fontScaleCorrection = Some 2,
                cachedFontScale = 1, updateCount = Some 1\<rparr>\<rparr>
   \<and> minScaleOf defaultOptions \<le> 2 \<and> 2 \<le> maxScaleOf defaultOptions
   \<and> clamp (7 / 2) (minScaleOf defaultOptions) (maxScaleOf defaultOptions) = 2
   \<and> minScaleOf defaultOptions \<le> 1 \<and> 1 \<le> maxScaleOf defaultOptions
   \<and> clamp 1 (minScaleOf defaultOptions) (maxScaleOf defaultOptions) = 1"
proof -
  have le: "minScaleOf defaultOptions \<le> maxScaleOf defaultOptions"
    by code_simp
  have sync: "getFontScaleSync (examplePlatform (7 / 2) 1) = Inr (7 / 2)"
    by code_simp
  have init: "initialState defaultOptions (examplePlatform (7 / 2) 1) 0
       = Inr \<lparr>fontScale = 2, fontScaleCorrection = Some 2, cachedFontScale = 1,
              updateCount = Some 0\<rparr>"
    by code_simp
  have run: "useFontScale defaultOptions (examplePlatform (7 / 2) 1) 0 [(Mounted, examplePlatform (7 / 2) 1)]
       = Inr \<lparr>globalUpdateCount = 1, state = \<lparr>fontScale = 2, fontScaleCorrection = Some 2,
                cachedFontScale = 1, updateCount = Some 1\<rparr>\<rparr>"
    by code_simp
  have c: "clamp (7 / 2) (minScaleOf defaultOptions) (maxScaleOf defaultOptions) = 2"
    by code_simp
  have one: "minScaleOf defaultOptions \<le> 1 \<and> 1 \<le> maxScaleOf defaultOptions"
    by code_simp
  from published_scale_clamped[OF le, where s = 1 and p = "examplePlatform (7 / 2) 1" and g = 0
      and events = "[(Mounted, examplePlatform (7 / 2) 1)]"
      and h = "\<lparr>globalUpdateCount = 1, state = \<lparr>fontScale = 2, fontScaleCorrection = Some 2,
                cachedFontScale = 1, updateCount = Some 1\<rparr>\<rparr>"] run one
  have "minScaleOf defaultOptions \<le> 2 \<and> 2 \<le> maxScaleOf defaultOptions
     \<and> clamp 1 (minScaleOf defaultOptions) (maxScaleOf defaultOptions) = 1"
    by simp
  with le sync init run c one show ?thesis by simp
qed

text \<open>
  Claim C6. For every configuration with \<open>minScale > maxScale\<close>, which nothing validates,
  and every reading \<open>v\<close>, \<open>clamp v minScale maxScale\<close> is \<open>maxScale\<close>.
\<close>

theorem clamp_malformed: "mx < mn \<Longrightarrow> clamp v mn mx = mx"
  by (simp add: clamp_def)

theorem clamp_malformed_witness:
  "(1::real) < 2 \<and> clamp 5 2 1 = 1 \<and> clamp 0 2 1 = 1"
  using clamp_malformed[of 1 2 5] clamp_malformed[of 1 2 0] by simp

subsection \<open>The correction factor\<close>

lemma initialState_correction: "initialState options p g = Inr r \<Longrightarrow> correctionOf r"
  by (auto simp add: initialState_def correctionOf_def js_divide_def Let_def split: sum.splits)

lemma updateFontScale_correction: "updateFontScale options p g = Inr (g', r) \<Longrightarrow> correctionOf r"
  by (auto simp add: updateFontScale_def correctionOf_def js_divide_def Let_def split: sum.splits)

lemma getFontScale_correction: "getFontScale options p = Inr r \<Longrightarrow> correctionOf r"
  by (auto simp add: getFontScale_def correctionOf_def js_divide_def Let_def split: sum.splits)

lemma handleEvent_correction:
  assumes "correctionOf (state h)"
  shows "correctionOf (state (handleEvent options h ep))"
  using assms updateFontScale_correction[of options "snd ep" "globalUpdateCount h"]
  by (auto simp add: handleEvent_def split: sum.splits)

lemma foldl_handleEvent_correction:
  "correctionOf (state h) \<Longrightarrow> correctionOf (state (foldl (handleEvent options) h events))"
  by (induction events arbitrary: h) (simp_all add: handleEvent_correction)

lemma useFontScale_correction: "useFontScale options p g events = Inr h \<Longrightarrow> correctionOf (state h)"
  by (auto simp add: useFontScale_def split: sum.splits
      intro!: foldl_handleEvent_correction dest: initialState_correction)

lemma product_error:
  assumes "b \<noteq> 0"
  shows "\<bar>js_times (fl (a / b)) b - a\<bar>
         \<le> quantum (fl (a / b) * b) / 2 + \<bar>b\<bar> * quantum (a / b) / 2"
proof -
  define c where "c = fl (a / b)"
  have 1: "\<bar>fl (c * b) - c * b\<bar> \<le> quantum (c * b) / 2" by (rule fl_error)
  have "\<bar>c - a / b\<bar> \<le> quantum (a / b) / 2" unfolding c_def by (rule fl_error)
  then have "\<bar>c - a / b\<bar> * \<bar>b\<bar> \<le> quantum (a / b) / 2 * \<bar>b\<bar>"
    by (intro mult_right_mono) simp_all
  moreover have "c * b - a = (c - a / b) * b" using assms by (simp add: algebra_simps)
  ultimately have 2: "\<bar>c * b - a\<bar> \<le> \<bar>b\<bar> * quantum (a / b) / 2"
    by (simp add: abs_mult mult.commute)
  have "\<bar>fl (c * b) - a\<bar> \<le> \<bar>fl (c * b) - c * b\<bar> + \<bar>c * b - a\<bar>" by linarith
  with 1 2 show ?thesis by (simp add: js_times_def c_def)
qed

text \<open>
  Claim C10, as the code has it. Every \<open>FontScaleResult\<close> of the hook (the initial
  state, the state an update sets, the state after any sequence of events) and of
  \<open>getFontScale\<close> has, when \<open>cachedFontScale\<close> is not zero, the binary64 quotient
  \<open>fontScale / cachedFontScale\<close> as its correction, and \<open>1\<close> when \<open>cachedFontScale\<close> is zero;
  no division by zero is evaluated. The binary64 product of the correction and
  \<open>cachedFontScale\<close> is \<open>fontScale\<close> up to the two roundings: half the spacing at the
  product, and half the spacing at the quotient times \<open>cachedFontScale\<close>.
\<close>

theorem correction_guarded:
  assumes "initialState options p g = Inr r \<or> updateFontScale options p g = Inr (g', r)
           \<or> getFontScale options p = Inr r
           \<or> (\<exists>h. useFontScale options p g events = Inr h \<and> r = state h)"
  shows "(cachedFontScale r \<noteq> 0
            \<longrightarrow> js_divide (fontScale r) (cachedFontScale r) = fontScaleCorrection r
                \<and> (\<exists>c. fontScaleCorrection r = Some c
                      \<and> \<bar>js_times c (cachedFontScale r) - fontScale r\<bar>
                          \<le> quantum (c * cachedFontScale r) / 2
                            + \<bar>cachedFontScale r\<bar> * quantum (fontScale r / cachedFontScale r) / 2))
       \<and> (cachedFontScale r = 0 \<longrightarrow> fontScaleCorrection r = Some 1)
       \<and> fontScaleCorrection r \<noteq> None"
proof -
  from assms have c: "correctionOf r"
    using initialState_correction updateFontScale_correction getFontScale_correction
      useFontScale_correction by blast
  show ?thesis
  proof (cases "cachedFontScale r = 0")
    case True
    then show ?thesis using c by (simp add: correctionOf_def)
  next
    case False
    from product_error[OF False, of "fontScale r"] False c show ?thesis
      by (simp add: correctionOf_def js_divide_def)
  qed
qed

theorem correction_guarded_witness:
  "getFontScale defaultOptions (examplePlatform 1 (7549747 / 8388608))
     = Inr \<lparr>fontScale = 1, fontScaleCorrection = Some (1250999929631985 / 1125899906842624),
            cachedFontScale = 7549747 / 8388608, updateCount = None\<rparr>
   \<and> js_divide 1 (7549747 / 8388608) = Some (1250999929631985 / 1125899906842624)
   \<and> getFontScale defaultOptions (examplePlatform 1 0)
     = Inr \<lparr>fontScale = 1, fontScaleCorrection = Some 1, cachedFontScale = 0, updateCount = None\<rparr>"
proof -
  have a: "getFontScale defaultOptions (examplePlatform 1 (7549747 / 8388608))
     = Inr \<lparr>fontScale = 1, fontScaleCorrection = Some (1250999929631985 / 1125899906842624),
            cachedFontScale = 7549747 / 8388608, updateCount = None\<rparr>"
    by code_simp
  have b: "getFontScale defaultOptions (examplePlatform 1 0)
     = Inr \<lparr>fontScale = 1, fontScaleCorrection = Some 1, cachedFontScale = 0, updateCount = None\<rparr>"
    by code_simp
  from correction_guarded[of defaultOptions "examplePlatform 1 (7549747 / 8388608)" _ 
      "\<lparr>fontScale = 1, fontScaleCorrection = Some (1250999929631985 / 1125899906842624),
            cachedFontScale = 7549747 / 8388608, updateCount = None\<rparr>"] a
  have "js_divide 1 (7549747 / 8388608) = Some (1250999929631985 / 1125899906842624)"
    by simp
  moreover from correction_guarded[of defaultOptions "examplePlatform 1 0" _ 
      "\<lparr>fontScale = 1, fontScaleCorrection = Some 1, cachedFontScale = 0, updateCount = None\<rparr>"] b
  have "fontScaleCorrection \<lparr>fontScale = 1, fontScaleCorrection = Some 1, cachedFontScale = 0, updateCount = None\<rparr> = Some (1::real)"
    by simp
  ultimately show ?thesis using a b by simp
qed

text \<open>
  Claim C10 says that the product is \<open>fontScale\<close> exactly. The app reads the scale
  \<open>1.0\<close> while React Native still holds \<open>0.9\<close> (the single-precision \<open>0.9f\<close> of the
  Android configuration, widened): the correction is \<open>1.1111111405455043\<close> and its
  product with the cached scale is \<open>0.9999999999999999\<close>, one unit in the last place
  below \<open>fontScale\<close>. The exact product of the two numbers is not \<open>1\<close> either.
\<close>

theorem correction_product_inexact:
  "getFontScale defaultOptions (examplePlatform 1 (7549747 / 8388608))
     = Inr \<lparr>fontScale = 1, fontScaleCorrection = Some (1250999929631985 / 1125899906842624),
            cachedFontScale = 7549747 / 8388608, updateCount = None\<rparr>
   \<and> js_times (1250999929631985 / 1125899906842624) (7549747 / 8388608)
       = 9007199254740991 / 9007199254740992
   \<and> js_times (1250999929631985 / 1125899906842624) (7549747 / 8388608) \<noteq> 1
   \<and> (1250999929631985 / 1125899906842624) * (7549747 / 8388608) \<noteq> (1::real)"
  by code_simp

section \<open>The scale reader\<close>

text \<open>
  Claim C3, as the code has it. When the live read gives no value (the promise rejects,
  the module or its method is missing, or the platform is not Android),
  \<open>getNativeFontScale\<close> returns the result of the cached read \<open>PixelRatio.getFontScale()\<close>,
  its exception included; otherwise it returns the live value. The value \<open>1.0\<close> is the
  default of the native module, whose promise resolves with it when the read of the
  Android configuration throws, so that with the module registered the reader on
  Android never fails.
\<close>

theorem reader_fallback:
  "(liveReadFails p \<longrightarrow> getNativeFontScale p = PixelRatio_getFontScale p)
   \<and> (Platform_OS p = ''android'' \<and> FontScaleModule p = Some m \<and> module_getFontScale m = Some (Inr v)
        \<longrightarrow> getNativeFontScale p = Inr v)
   \<and> FontScaleModule_getFontScale (Some (Inl e)) app = 1
   \<and> FontScaleModule_getFontScale None (Inl e) = 1
   \<and> FontScaleModule_getFontScale (Some (Inr v)) app = v
   \<and> FontScaleModule_getFontScale None (Inr v) = v
   \<and> getNativeFontScale \<lparr>Platform_OS = ''android'',
         FontScaleModule = Some (registeredModule activity app), PixelRatio_getFontScale = cached\<rparr>
       = Inr (FontScaleModule_getFontScale activity app)"
  by (auto simp add: liveReadFails_def getNativeFontScale_def FontScaleModule_getFontScale_def
      registeredModule_def split: option.splits sum.splits)

theorem reader_fallback_witness:
  "liveReadFails \<lparr>Platform_OS = ''android'',
       FontScaleModule = Some \<lparr>module_getFontScale = Some (Inl (Error ''live'')),
                               module_getFontScaleSync = None\<rparr>,
       PixelRatio_getFontScale = Inr (3 / 2)\<rparr>
   \<and> getNativeFontScale \<lparr>Platform_OS = ''android'',
       FontScaleModule = Some \<lparr>module_getFontScale = Some (Inl (Error ''live'')),
                               module_getFontScaleSync = None\<rparr>,
       PixelRatio_getFontScale = Inr (3 / 2)\<rparr> = Inr (3 / 2)
   \<and> liveReadFails \<lparr>Platform_OS = ''ios'', FontScaleModule = None,
       PixelRatio_getFontScale = Inr (3 / 2)\<rparr>
   \<and> getNativeFontScale \<lparr>Platform_OS = ''ios'', FontScaleModule = None,
       PixelRatio_getFontScale = Inr (3 / 2)\<rparr> = Inr (3 / 2)
   \<and> getNativeFontScale (examplePlatform 2 (3 / 2)) = Inr 2"
proof -
  have a: "liveReadFails \<lparr>Platform_OS = ''android'',
       FontScaleModule = Some \<lparr>module_getFontScale = Some (Inl (Error ''live'')),
                               module_getFontScaleSync = None\<rparr>,
       PixelRatio_getFontScale = Inr (3 / 2)\<rparr>"
    by (simp add: liveReadFails_def)
  have b: "liveReadFails \<lparr>Platform_OS = ''ios'', FontScaleModule = None,
       PixelRatio_getFontScale = Inr (3 / 2)\<rparr>"
    by (simp add: liveReadFails_def)
  have c: "getNativeFontScale (examplePlatform 2 (3 / 2)) = Inr 2"
    by (simp add: getNativeFontScale_def examplePlatform_def registeredModule_def
        FontScaleModule_getFontScale_def)
  from reader_fallback[where p = "\<lparr>Platform_OS = ''android'',
       FontScaleModule = Some \<lparr>module_getFontScale = Some (Inl (Error ''live'')),
                               module_getFontScaleSync = None\<rparr>,
       PixelRatio_getFontScale = Inr (3 / 2)\<rparr>"] a
    reader_fallback[where p = "\<lparr>Platform_OS = ''ios'', FontScaleModule = None,
       PixelRatio_getFontScale = Inr (3 / 2)\<rparr>"] b c
  show ?thesis by simp
qed

text \<open>
  Claim C3 says that the reader returns \<open>1.0\<close> when the live read and the cached read
  both throw, and the cached value when only the live read throws. Where the live read
  is the promise of the module: in \<open>getNativeFontScale\<close> the cached read is the handler of
  its rejection, so the exception of the cached read leaves the function. Where the
  live read is the read of the Android configuration in the native module: its
  exception makes the promise resolve with \<open>1.0\<close>, and the reader returns \<open>1.0\<close> although
  the cached value is \<open>1.5\<close>.
\<close>

theorem reader_total_failure_propagates:
  "getNativeFontScale
     \<lparr>Platform_OS = ''android'',
      FontScaleModule = Some \<lparr>module_getFontScale = Some (Inl (Error ''live'')),
                              module_getFontScaleSync = Some (Inl (Error ''live''))\<rparr>,
      PixelRatio_getFontScale = Inl (Error ''cached'')\<rparr> = Inl (Error ''cached'')
   \<and> getNativeFontScale
     \<lparr>Platform_OS = ''android'',
      FontScaleModule = Some (registeredModule (Some (Inl (Error ''activity''))) (Inr (3 / 2))),
      PixelRatio_getFontScale = Inr (3 / 2)\<rparr> = Inr 1"
  by (simp add: getNativeFontScale_def registeredModule_def FontScaleModule_getFontScale_def)

section \<open>The provider\<close>

text \<open>
  Claim C7 says that a call of \<open>useFontScaleValue\<close> outside a \<open>ScaledThemeProvider\<close> is
  detected, logs a warning and returns \<open>1.0\<close>. With no provider around the caller
  \<open>useContext\<close> returns the default of \<open>createContext(1)\<close>, which is not \<open>undefined\<close>: the
  value is \<open>1\<close> and the console stays empty.
\<close>

theorem useFontScaleValue_outside_provider: "useFontScaleValue [] = (1, [])"
  by (simp add: useFontScaleValue_def useContext_def FontScaleContext_def createContext_def)

text \<open>
  The warning is written only below a provider whose value is \<open>undefined\<close>, which
  \<open>ScaledThemeProvider\<close> never is.
\<close>

lemma useFontScaleValue_warns_iff:
  "snd (useFontScaleValue providers) \<noteq> [] \<longleftrightarrow> (\<exists>rest. providers = None # rest)"
  by (auto simp add: useFontScaleValue_def useContext_def FontScaleContext_def createContext_def
      split: list.splits option.splits)

lemma ScaledThemeProvider_defined: "fst (ScaledThemeProvider r) \<noteq> None"
  by (simp add: ScaledThemeProvider_def)

end
